theory Spec2Isabelle
  imports Complex_Main
begin

section \<open>Grid search of the model-selection notebook\<close>

text \<open>
  The program is the notebook \<^verbatim>\<open>model_selection\<close>: it scores a default
  \<^verbatim>\<open>vd.Spline()\<close> by cross-validation, builds every combination of two lists of
  candidate values with \<^verbatim>\<open>itertools.product\<close>, scores the spline once per
  combination, and reports the combination with the largest score.

  The candidate values are \<^verbatim>\<open>None\<close> or a float, read as a real. A score is a
  \<^verbatim>\<open>np.float64\<close> and may be NaN, which numpy's argmax treats as the maximum;
  infinite scores are not modelled.
\<close>

subsection \<open>Values, combinations and the model object\<close>

datatype pyval = PyNone | PyFloat real

text \<open>
  A score: NaN or a number. Every comparison with NaN is false, as for IEEE floats.
\<close>

datatype npfloat = NaN | Fl (the_num: real)

fun fl_le :: "npfloat \<Rightarrow> npfloat \<Rightarrow> bool" where
  "fl_le (Fl a) (Fl b) = (a \<le> b)"
| "fl_le x y = False"

text \<open>One element of \<^verbatim>\<open>parameter_sets\<close>: \<^verbatim>\<open>dict(damping=..., mindist=...)\<close>.\<close>

record config =
  damping :: pyval
  mindist :: pyval

text \<open>
  The parameters of a \<^verbatim>\<open>vd.Spline\<close> object that the notebook sets. The other
  constructor arguments of the class are never touched by the notebook.
\<close>

record spline_obj =
  obj_damping :: pyval
  obj_mindist :: pyval

text \<open>
  \<^verbatim>\<open>spline.set_params(**params)\<close>: assigns each key of the dictionary to the
  attribute of the same name, in place; the model returns the updated object.
\<close>

definition set_params :: "spline_obj \<Rightarrow> config \<Rightarrow> spline_obj" where
  "set_params s params = s\<lparr>obj_damping := damping params, obj_mindist := mindist params\<rparr>"

subsection \<open>The library calls\<close>

text \<open>
  What the notebook takes from verde: \<^verbatim>\<open>vd.Spline()\<close>, the freshly constructed
  object with the library's default parameters, and the scoring expression
  \<^verbatim>\<open>np.mean(vd.cross_val_score(spline, proj_coordz, dataz.air_temperature_c))\<close>
  on the fixed data set, a function of the object's parameters that either gives a score
  or raises an exception of the library (\<open>Inl\<close>). The call leaves the parameters of
  the object as they are.
\<close>

record 'e lib =
  vd_Spline :: spline_obj
  cv_score :: "spline_obj \<Rightarrow> 'e + npfloat"

text \<open>
  The exceptions of a run: numpy's \<^verbatim>\<open>ValueError\<close> (argmax of an empty sequence),
  Python's \<^verbatim>\<open>IndexError\<close> (list index out of range), and an exception raised inside
  the scoring expression, which no cell catches.
\<close>

datatype 'e error = ValueError | IndexError | Raised 'e

subsection \<open>Enumeration\<close>

text \<open>
  \<^verbatim>\<open>itertools.product(*iterables)\<close>, after the equivalent code of the Python
  documentation:
  \<^verbatim>\<open>
    result = [[]]
    for pool in pools:
        result = [x+[y] for x in result for y in pool]
  \<close>
\<close>

definition product_step :: "'a list list \<Rightarrow> 'a list \<Rightarrow> 'a list list" where
  "product_step result pool = concat (map (\<lambda>x. map (\<lambda>y. x @ [y]) pool) result)"

definition itertools_product :: "'a list list \<Rightarrow> 'a list list" where
  "itertools_product pools = fold (\<lambda>pool result. product_step result pool) pools [[]]"

text \<open>
  \<^verbatim>\<open>
    parameter_sets = [
        dict(damping=combo[0], mindist=combo[1])
        for combo in itertools.product(dampings, mindists)
    ]
  \<close>
  The two lists are the arguments. Every combination of two pools has two components
  (lemma \<open>combo_length\<close> below), so \<^verbatim>\<open>combo[0]\<close> and \<^verbatim>\<open>combo[1]\<close> are in range.
\<close>

definition parameter_sets :: "pyval list \<Rightarrow> pyval list \<Rightarrow> config list" where
  "parameter_sets dampings mindists =
     map (\<lambda>combo. \<lparr>damping = combo ! 0, mindist = combo ! 1\<rparr>)
       (itertools_product [dampings, mindists])"

text \<open>The lists of the notebook.\<close>

definition dampings :: "pyval list" where
  "dampings = [PyNone, PyFloat (1 / 10000), PyFloat (1 / 1000), PyFloat (1 / 100)]"

definition mindists :: "pyval list" where
  "mindists = [PyFloat 5000, PyFloat 10000, PyFloat 50000, PyFloat 100000]"

subsection \<open>The evaluation loop\<close>

text \<open>
  The variables of the loop cell, and the log of the objects that the scoring expression
  was called on, in call order (each entry is the object's parameters at the call).
\<close>

record nb_state =
  spline :: spline_obj
  scores :: "npfloat list"
  cv_calls :: "spline_obj list"

text \<open>
  \<^verbatim>\<open>
    for params in parameter_sets:
        spline.set_params(**params)
        score = np.mean(vd.cross_val_score(spline, proj_coordz, dataz.air_temperature_c))
        scores.append(score)
  \<close>
  An exception of the scoring expression ends the loop; the state is the one at the raise.
\<close>

fun sweep :: "(spline_obj \<Rightarrow> 'e + npfloat) \<Rightarrow> config list \<Rightarrow> nb_state \<Rightarrow> ('e error + unit) \<times> nb_state" where
  "sweep score [] st = (Inr (), st)"
| "sweep score (params # rest) st =
     (let st1 = st\<lparr>spline := set_params (spline st) params\<rparr>;
          st2 = st1\<lparr>cv_calls := cv_calls st1 @ [spline st1]\<rparr>
      in case score (spline st1) of
           Inl e \<Rightarrow> (Inl (Raised e), st2)
         | Inr sc \<Rightarrow> sweep score rest (st2\<lparr>scores := scores st2 @ [sc]\<rparr>))"

text \<open>
  The loop cell: \<^verbatim>\<open>spline = vd.Spline()\<close>, \<^verbatim>\<open>scores = []\<close>, then the loop. The log
  of earlier scoring calls is passed in.
\<close>

definition loop_cell :: "'e lib \<Rightarrow> config list \<Rightarrow> spline_obj list \<Rightarrow> ('e error + unit) \<times> nb_state" where
  "loop_cell lib psets calls =
     sweep (cv_score lib) psets \<lparr>spline = vd_Spline lib, scores = [], cv_calls = calls\<rparr>"

subsection \<open>Selection\<close>

text \<open>
  \<^verbatim>\<open>np.argmax\<close> of a list of floats, after the scan numpy runs on an array of
  doubles:
  \<^verbatim>\<open>
    mp = ip[0]; max_ind = 0
    if isnan(mp): return 0
    for i in range(1, n):
        if not (ip[i] <= mp):
            mp = ip[i]; max_ind = i
            if isnan(mp): break
  \<close>
  It gives the index of the first NaN when there is one, and otherwise of the first
  occurrence of the largest value; an empty sequence raises \<^verbatim>\<open>ValueError\<close>.
\<close>

fun argmax_scan :: "npfloat list \<Rightarrow> nat \<Rightarrow> nat \<Rightarrow> npfloat \<Rightarrow> nat" where
  "argmax_scan [] i best m = best"
| "argmax_scan (x # xs) i best m =
     (if \<not> fl_le x m then (if x = NaN then i else argmax_scan xs (Suc i) i x)
      else argmax_scan xs (Suc i) best m)"

definition np_argmax :: "npfloat list \<Rightarrow> 'e error + nat" where
  "np_argmax a =
     (case a of
        [] \<Rightarrow> Inl ValueError
      | x # xs \<Rightarrow> Inr (if x = NaN then 0 else argmax_scan xs 1 0 x))"

text \<open>Indexing a list with a non-negative index: out of range raises.\<close>

definition py_index :: "'a list \<Rightarrow> nat \<Rightarrow> 'e error + 'a" where
  "py_index xs i = (if i < length xs then Inr (xs ! i) else Inl IndexError)"

text \<open>What the last cell prints, in the order of its three lines' labels.\<close>

record 'c result =
  best_score :: npfloat
  score_with_defaults :: npfloat
  best_parameters :: 'c

text \<open>
  \<^verbatim>\<open>
    best = np.argmax(scores)
    print("Best score:", scores[best])
    print("Score with defaults:", score_default)
    print("Best parameters:", parameter_sets[best])
  \<close>
\<close>

definition selection :: "'c list \<Rightarrow> npfloat list \<Rightarrow> npfloat \<Rightarrow> 'e error + 'c result" where
  "selection psets scs score_default =
     (case np_argmax scs of
        Inl err \<Rightarrow> Inl err
      | Inr best \<Rightarrow>
          (case py_index scs best of
             Inl err \<Rightarrow> Inl err
           | Inr bs \<Rightarrow>
               (case py_index psets best of
                  Inl err \<Rightarrow> Inl err
                | Inr bp \<Rightarrow>
                    Inr \<lparr>best_score = bs, score_with_defaults = score_default,
                         best_parameters = bp\<rparr>)))"

subsection \<open>The notebook\<close>

text \<open>
  The cells in order: the baseline score of \<^verbatim>\<open>spline_default = vd.Spline()\<close>, the
  combinations, the loop, the selection. A run gives its outcome (the exception that
  ended it, or what it printed), the log of scoring calls, and the loop cell's variables
  when that cell was reached. The fit of \<^verbatim>\<open>spline_default\<close> on the whole data set
  after the baseline score is not modelled: no later cell reads it.
\<close>

definition notebook ::
  "'e lib \<Rightarrow> pyval list \<Rightarrow> pyval list \<Rightarrow>
     ('e error + config result) \<times> spline_obj list \<times> nb_state option" where
  "notebook lib ds ms =
     (let spline_default = vd_Spline lib in
      case cv_score lib spline_default of
        Inl e \<Rightarrow> (Inl (Raised e), [spline_default], None)
      | Inr score_default \<Rightarrow>
          (let psets = parameter_sets ds ms;
               (r, st) = loop_cell lib psets [spline_default]
           in case r of
                Inl err \<Rightarrow> (Inl err, cv_calls st, Some st)
              | Inr u \<Rightarrow> (selection psets (scores st) score_default, cv_calls st, Some st)))"

text \<open>
  The score recorded for each configuration: the lists \<^verbatim>\<open>parameter_sets\<close> and
  \<^verbatim>\<open>scores\<close> read side by side, as the last cell does with one index for both.
\<close>

definition score_records :: "config list \<Rightarrow> nb_state \<Rightarrow> (config \<times> npfloat) list" where
  "score_records psets st = zip psets (scores st)"

subsection \<open>Stubs for concrete runs\<close>

text \<open>
  A stand-in for the freshly constructed object of the stubs: no damping, mindist 1e-5.
\<close>

definition default_spline :: spline_obj where
  "default_spline = \<lparr>obj_damping = PyNone, obj_mindist = PyFloat (1 / 100000)\<rparr>"

text \<open>
  A scoring stub given by a table from parameter values to outcomes; an object whose
  parameters are not in the table scores 0.8.
\<close>

definition stub_lib :: "(config \<times> (string + npfloat)) list \<Rightarrow> string lib" where
  "stub_lib tab =
     \<lparr>vd_Spline = default_spline,
      cv_score = (\<lambda>s. case map_of tab \<lparr>damping = obj_damping s, mindist = obj_mindist s\<rparr> of
                         Some r \<Rightarrow> r
                       | None \<Rightarrow> Inr (Fl (4 / 5)))\<rparr>"

text \<open>The four configurations of the two-by-two sweep, in enumeration order.\<close>

definition c00 :: config where "c00 = \<lparr>damping = PyNone, mindist = PyFloat 5000\<rparr>"
definition c01 :: config where "c01 = \<lparr>damping = PyNone, mindist = PyFloat 50000\<rparr>"
definition c10 :: config where "c10 = \<lparr>damping = PyFloat (1 / 100), mindist = PyFloat 5000\<rparr>"
definition c11 :: config where "c11 = \<lparr>damping = PyFloat (1 / 100), mindist = PyFloat 50000\<rparr>"

section \<open>Enumeration: count and order\<close>

lemma length_product_step:
  "length (product_step result pool) = length result * length pool"
  by (induction result) (simp_all add: product_step_def)

lemma length_fold_product_step:
  "length (fold (\<lambda>pool result. product_step result pool) pools r)
     = length r * prod_list (map length pools)"
  by (induction pools arbitrary: r) (simp_all add: length_product_step)

lemma product_step_singleton: "product_step [[]] pool = map (\<lambda>y. [y]) pool"
  by (simp add: product_step_def)

lemma product_two:
  "itertools_product [ds, ms] = concat (map (\<lambda>d. map (\<lambda>m. [d, m]) ms) ds)"
  by (simp add: itertools_product_def product_step_singleton)
     (simp add: product_step_def map_concat comp_def)

lemma combo_length: "combo \<in> set (itertools_product [ds, ms]) \<Longrightarrow> length combo = 2"
  by (auto simp: product_two)

lemma parameter_sets_nested:
  "parameter_sets ds ms = concat (map (\<lambda>d. map (\<lambda>m. \<lparr>damping = d, mindist = m\<rparr>) ms) ds)"
  by (simp add: parameter_sets_def product_two map_concat comp_def)

lemma length_parameter_sets: "length (parameter_sets ds ms) = length ds * length ms"
  by (simp add: parameter_sets_def itertools_product_def length_product_step)

text \<open>
  C2. The number of combinations that \<^verbatim>\<open>itertools.product\<close> enumerates for pools
  of sizes n1, ..., nk is the product n1 * ... * nk; for the two lists of the notebook
  the number of configurations is the product of their lengths, 16 for the lists the
  notebook uses.
\<close>

theorem enumeration_count:
  "length (itertools_product pools) = prod_list (map length pools)
   \<and> length (parameter_sets ds ms) = length ds * length ms
   \<and> length (parameter_sets dampings mindists) = 16"
  by (simp add: itertools_product_def length_fold_product_step length_parameter_sets
      dampings_def mindists_def)

lemma product_step_nth:
  "i < length result \<Longrightarrow> j < length pool \<Longrightarrow>
     product_step result pool ! (i * length pool + j) = result ! i @ [pool ! j]"
proof (induction result arbitrary: i)
  case Nil
  then show ?case by simp
next
  case (Cons x xs)
  show ?case
  proof (cases i)
    case 0
    with Cons.prems show ?thesis by (simp add: product_step_def nth_append)
  next
    case (Suc k)
    with Cons.prems have k: "k < length xs" by simp
    have "product_step (x # xs) pool = map (\<lambda>y. x @ [y]) pool @ product_step xs pool"
      by (simp add: product_step_def)
    moreover have "Suc k * length pool + j = length (map (\<lambda>y. x @ [y]) pool) + (k * length pool + j)"
      by simp
    ultimately have "product_step (x # xs) pool ! (Suc k * length pool + j)
        = product_step xs pool ! (k * length pool + j)"
      by (simp only: nth_append_length_plus)
    with Cons.IH [OF k Cons.prems(2)] Suc show ?thesis by simp
  qed
qed

lemma product_snoc:
  "itertools_product (pools @ [pool]) = product_step (itertools_product pools) pool"
  by (simp add: itertools_product_def)

lemma parameter_sets_nth:
  assumes "i < length ds" "j < length ms"
  shows "parameter_sets ds ms ! (i * length ms + j) = \<lparr>damping = ds ! i, mindist = ms ! j\<rparr>"
proof -
  have p: "itertools_product [ds, ms] = product_step (map (\<lambda>y. [y]) ds) ms"
    by (simp add: itertools_product_def product_step_singleton)
  have "i * length ms + j < length ds * length ms"
  proof -
    have "i * length ms + j < Suc i * length ms" using assms(2) by simp
    also have "\<dots> \<le> length ds * length ms" using assms(1) by (simp only: mult_le_mono1 Suc_leI)
    finally show ?thesis .
  qed
  then have "parameter_sets ds ms ! (i * length ms + j)
      = (\<lambda>combo. \<lparr>damping = combo ! 0, mindist = combo ! 1\<rparr>)
          (product_step (map (\<lambda>y. [y]) ds) ms ! (i * length ms + j))"
    by (simp add: parameter_sets_def p length_product_step)
  also have "product_step (map (\<lambda>y. [y]) ds) ms ! (i * length ms + j) = [ds ! i] @ [ms ! j]"
    using product_step_nth [of i "map (\<lambda>y. [y]) ds" j ms] assms by simp
  finally show ?thesis by simp
qed

lemma parameter_sets_scenario: "parameter_sets [PyNone, PyFloat (1 / 100)] [PyFloat 5000, PyFloat 50000] =
     [\<lparr>damping = PyNone, mindist = PyFloat 5000\<rparr>,
      \<lparr>damping = PyNone, mindist = PyFloat 50000\<rparr>,
      \<lparr>damping = PyFloat (1 / 100), mindist = PyFloat 5000\<rparr>,
      \<lparr>damping = PyFloat (1 / 100), mindist = PyFloat 50000\<rparr>]"
  by (simp add: parameter_sets_nested)

text \<open>
  C3. The configurations come in nested-loop order, the last list fastest:
  \<^verbatim>\<open>parameter_sets\<close> is the list built by an outer loop over the dampings and an
  inner loop over the mindists, so the configuration at position \<open>i * len(mindists) + j\<close>
  pairs the i-th damping with the j-th mindist; for any number of pools, appending a
  pool to \<^verbatim>\<open>itertools.product\<close> makes that pool the fastest one. For dampings
  \<^verbatim>\<open>[None, 0.01]\<close> and mindists \<^verbatim>\<open>[5000, 50000]\<close> the order is (None, 5000),
  (None, 50000), (0.01, 5000), (0.01, 50000).
\<close>

theorem enumeration_order:
  "parameter_sets ds ms = concat (map (\<lambda>d. map (\<lambda>m. \<lparr>damping = d, mindist = m\<rparr>) ms) ds)
   \<and> (\<forall>i j. i < length ds \<and> j < length ms \<longrightarrow>
         parameter_sets ds ms ! (i * length ms + j) = \<lparr>damping = ds ! i, mindist = ms ! j\<rparr>)
   \<and> (\<forall>i j. i < length (itertools_product pools) \<and> j < length (pool :: 'a list) \<longrightarrow>
         itertools_product (pools @ [pool]) ! (i * length pool + j)
           = itertools_product pools ! i @ [pool ! j])
   \<and> parameter_sets [PyNone, PyFloat (1 / 100)] [PyFloat 5000, PyFloat 50000] =
       [\<lparr>damping = PyNone, mindist = PyFloat 5000\<rparr>,
        \<lparr>damping = PyNone, mindist = PyFloat 50000\<rparr>,
        \<lparr>damping = PyFloat (1 / 100), mindist = PyFloat 5000\<rparr>,
        \<lparr>damping = PyFloat (1 / 100), mindist = PyFloat 50000\<rparr>]"
  using parameter_sets_nested [of ds ms] parameter_sets_nth [of _ ds _ ms]
    product_step_nth [of _ "itertools_product pools" _ pool] parameter_sets_scenario
  by (simp only: product_snoc) blast

theorem enumeration_order_witness:
  "parameter_sets dampings mindists ! 6 = \<lparr>damping = PyFloat (1 / 10000), mindist = PyFloat 50000\<rparr>
   \<and> itertools_product [[1, 2], [3, 4], [5, 6 :: nat]] ! 3 = [1, 4, 6]"
proof -
  have a: "parameter_sets dampings mindists ! (1 * length mindists + 2)
      = \<lparr>damping = dampings ! 1, mindist = mindists ! 2\<rparr>"
    using enumeration_order [of dampings mindists "[]" "[]"] by (simp add: dampings_def mindists_def)
  have b: "itertools_product ([[1, 2], [3, 4]] @ [[5, 6 :: nat]]) ! (1 * length [5, 6 :: nat] + 1)
      = itertools_product [[1, 2], [3, 4]] ! 1 @ [[5, 6 :: nat] ! 1]"
    using enumeration_order [of "[]" "[]" "[[1, 2], [3, 4 :: nat]]" "[5, 6]"]
    by (simp add: itertools_product_def product_step_def)
  from a b show ?thesis
    by (simp add: dampings_def mindists_def itertools_product_def product_step_def
        eval_nat_numeral)
qed

section \<open>Selection\<close>

lemma argmax_scan_bound: "best < i \<Longrightarrow> argmax_scan xs i best m < i + length xs"
proof (induction xs arbitrary: i best m)
  case Nil
  then show ?case by simp
next
  case (Cons x xs)
  have a: "argmax_scan xs (Suc i) i x < Suc i + length xs"
    by (rule Cons.IH) simp
  have b: "argmax_scan xs (Suc i) best m < Suc i + length xs"
    by (rule Cons.IH) (use Cons.prems in simp)
  from a b show ?case by simp
qed

lemma np_argmax_bound:
  assumes "a \<noteq> []"
  shows "\<exists>b. (np_argmax a :: 'e error + nat) = Inr b \<and> b < length a"
proof -
  from assms obtain x xs where a: "a = x # xs" by (cases a) auto
  have "argmax_scan xs 1 0 x < 1 + length xs"
    by (rule argmax_scan_bound) simp
  then show ?thesis by (simp add: np_argmax_def a)
qed

text \<open>Scores without NaN: the scan is the first-maximum scan of the numbers.\<close>

lemma argmax_scan_numbers:
  assumes "best < length pre" "\<forall>x\<in>set pre. x \<le> pre ! best" "\<forall>j<best. pre ! j < pre ! best"
  shows "argmax_scan (map Fl xs) (length pre) best (Fl (pre ! best)) < length (pre @ xs)
    \<and> (\<forall>x\<in>set (pre @ xs).
          x \<le> (pre @ xs) ! argmax_scan (map Fl xs) (length pre) best (Fl (pre ! best)))
    \<and> (\<forall>j<argmax_scan (map Fl xs) (length pre) best (Fl (pre ! best)).
          (pre @ xs) ! j < (pre @ xs) ! argmax_scan (map Fl xs) (length pre) best (Fl (pre ! best)))"
  using assms
proof (induction xs arbitrary: pre best)
  case Nil
  then show ?case by simp
next
  case (Cons x xs)
  let ?pre = "pre @ [x]"
  show ?case
  proof (cases "pre ! best < x")
    case True
    have b: "length pre < length ?pre" by simp
    have m: "\<forall>y\<in>set ?pre. y \<le> ?pre ! length pre"
      using Cons.prems(2) True by (auto simp: less_imp_le order_trans)
    have e: "\<forall>j<length pre. ?pre ! j < ?pre ! length pre"
      using Cons.prems(2) True by (auto simp: nth_append intro: le_less_trans)
    from Cons.IH [OF b m e] True show ?thesis by (simp add: not_le)
  next
    case False
    have b: "best < length ?pre" using Cons.prems(1) by simp
    have v: "?pre ! best = pre ! best" using Cons.prems(1) by (simp add: nth_append)
    have m: "\<forall>y\<in>set ?pre. y \<le> ?pre ! best"
      using Cons.prems(2) False v by auto
    have e: "\<forall>j<best. ?pre ! j < ?pre ! best"
      using Cons.prems(1,3) v by (simp add: nth_append)
    from Cons.IH [OF b m e] False v show ?thesis by (simp add: not_le)
  qed
qed

lemma np_argmax_numbers:
  assumes "rs \<noteq> []"
  shows "\<exists>b. (np_argmax (map Fl rs) :: 'e error + nat) = Inr b \<and> b < length rs
    \<and> rs ! b = Max (set rs) \<and> (\<forall>j<b. rs ! j < rs ! b)"
proof -
  from assms obtain x xs where a: "rs = x # xs" by (cases rs) auto
  define b where "b = argmax_scan (map Fl xs) 1 0 (Fl x)"
  have s: "b < length ([x] @ xs) \<and> (\<forall>y\<in>set ([x] @ xs). y \<le> ([x] @ xs) ! b)
      \<and> (\<forall>j<b. ([x] @ xs) ! j < ([x] @ xs) ! b)"
    using argmax_scan_numbers [of 0 "[x]" xs] by (simp add: b_def)
  then have lt: "b < length rs" and le: "\<forall>y\<in>set rs. y \<le> rs ! b"
    and first: "\<forall>j<b. rs ! j < rs ! b"
    by (simp_all add: a)
  have "Max (set rs) = rs ! b"
    using lt le by (intro Max_eqI) auto
  moreover have "(np_argmax (map Fl rs) :: 'e error + nat) = Inr b"
    by (simp add: np_argmax_def a b_def)
  ultimately show ?thesis using lt first by simp
qed

text \<open>Scores with a NaN: the scan stops at the first one.\<close>

lemma argmax_scan_nan:
  assumes "NaN \<in> set xs" and "m \<noteq> NaN"
  shows "i \<le> argmax_scan xs i best m
    \<and> argmax_scan xs i best m - i < length xs
    \<and> xs ! (argmax_scan xs i best m - i) = NaN
    \<and> (\<forall>j<argmax_scan xs i best m - i. xs ! j \<noteq> NaN)"
  using assms
proof (induction xs arbitrary: i best m)
  case Nil
  then show ?case by simp
next
  case (Cons x xs)
  show ?case
  proof (cases x)
    case NaN
    then show ?thesis by simp
  next
    case (Fl v)
    with Cons.prems have in_rest: "NaN \<in> set xs" by simp
    define b' m' where "b' = (if fl_le x m then best else i)"
      and "m' = (if fl_le x m then m else x)"
    have m': "m' \<noteq> NaN" using Fl Cons.prems(2) by (simp add: m'_def)
    have step: "argmax_scan (x # xs) i best m = argmax_scan xs (Suc i) b' m'"
      using Fl by (simp add: b'_def m'_def)
    let ?r = "argmax_scan xs (Suc i) b' m'"
    from Cons.IH [OF in_rest m', of "Suc i" b']
    have ih: "Suc i \<le> ?r" "?r - Suc i < length xs" "xs ! (?r - Suc i) = NaN"
      "\<forall>j<?r - Suc i. xs ! j \<noteq> NaN"
      by blast+
    from ih(1) have d: "?r - i = Suc (?r - Suc i)" by simp
    have nn: "\<forall>j<?r - i. (x # xs) ! j \<noteq> NaN"
    proof (intro allI impI)
      fix j assume j: "j < ?r - i"
      show "(x # xs) ! j \<noteq> NaN"
      proof (cases j)
        case 0
        with Fl show ?thesis by simp
      next
        case (Suc k)
        with j d have "k < ?r - Suc i" by simp
        with ih(4) Suc show ?thesis by simp
      qed
    qed
    have "i \<le> ?r" using ih(1) by simp
    moreover have "?r - i < length (x # xs)" using ih(2) d by simp
    moreover have "(x # xs) ! (?r - i) = NaN" using ih(3) d by simp
    ultimately show ?thesis unfolding step using nn by blast
  qed
qed

lemma np_argmax_nan:
  assumes "NaN \<in> set a"
  shows "\<exists>b. (np_argmax a :: 'e error + nat) = Inr b \<and> b < length a \<and> a ! b = NaN
    \<and> (\<forall>j<b. a ! j \<noteq> NaN)"
proof -
  from assms obtain x xs where a: "a = x # xs" by (cases a) auto
  show ?thesis
  proof (cases x)
    case NaN
    then show ?thesis by (simp add: np_argmax_def a)
  next
    case (Fl v)
    with assms a have in_rest: "NaN \<in> set xs" by simp
    let ?r = "argmax_scan xs 1 0 x"
    from argmax_scan_nan [OF in_rest, of x 1 0] Fl
    have r: "1 \<le> ?r" "?r - 1 < length xs" "xs ! (?r - 1) = NaN" "\<forall>j<?r - 1. xs ! j \<noteq> NaN"
      by simp_all
    from r(1) obtain k where k: "?r = Suc k" by (cases ?r) auto
    have "\<forall>j<?r. a ! j \<noteq> NaN"
    proof (intro allI impI)
      fix j assume j: "j < ?r"
      show "a ! j \<noteq> NaN"
      proof (cases j)
        case 0
        with Fl a show ?thesis by simp
      next
        case (Suc l)
        with j k have "l < ?r - 1" by simp
        with r(4) Suc a show ?thesis by simp
      qed
    qed
    moreover have "(np_argmax a :: 'e error + nat) = Inr ?r"
      using Fl by (simp add: np_argmax_def a)
    moreover have "?r < length a" using r(2) k by (simp add: a)
    moreover have "a ! ?r = NaN" using r(3) k by (simp add: a)
    ultimately show ?thesis by blast
  qed
qed

lemma numbers_of_scores:
  assumes "NaN \<notin> set a"
  shows "a = map Fl (map the_num a)"
  using assms by (induction a) (auto simp: npfloat.expand)

text \<open>In both cases the score at the index is NaN or at least every score.\<close>

lemma np_argmax_max:
  assumes "a \<noteq> []"
  shows "\<exists>b. (np_argmax a :: 'e error + nat) = Inr b \<and> b < length a
    \<and> (NaN \<in> set a \<longleftrightarrow> a ! b = NaN)
    \<and> (a ! b = NaN \<or> (\<forall>x\<in>set a. fl_le x (a ! b)))"
proof (cases "NaN \<in> set a")
  case True
  from np_argmax_nan [OF True, where 'e = 'e] True show ?thesis by blast
next
  case False
  define rs where "rs = map the_num a"
  from numbers_of_scores [OF False] have a: "a = map Fl rs" by (simp add: rs_def)
  with assms have "rs \<noteq> []" by auto
  from np_argmax_numbers [OF this, where 'e = 'e] obtain b where
    b: "(np_argmax (map Fl rs) :: 'e error + nat) = Inr b" "b < length rs"
    "rs ! b = Max (set rs)"
    by blast
  have "\<forall>x\<in>set a. fl_le x (a ! b)"
  proof
    fix x assume "x \<in> set a"
    then obtain r where r: "x = Fl r" "r \<in> set rs" by (auto simp: a)
    then have "r \<le> Max (set rs)" by simp
    with b r show "fl_le x (a ! b)" by (simp add: a)
  qed
  moreover have "a ! b \<noteq> NaN" using b(2) by (simp add: a)
  ultimately show ?thesis using b False by (auto simp: a)
qed

lemma selection_of_argmax:
  assumes "(np_argmax scs :: 'e error + nat) = Inr b" "b < length scs" "length psets = length scs"
  shows "(selection psets scs sd :: 'e error + 'c result) =
    Inr \<lparr>best_score = scs ! b, score_with_defaults = sd, best_parameters = psets ! b\<rparr>"
  using assms by (simp add: selection_def py_index_def)

text \<open>
  C1, as the code has it. For every non-empty list of scores without NaN, recorded for as
  many configurations, the last cell reports the configuration at an index whose score is
  the maximum of the recorded scores, and every earlier score is strictly smaller, so
  among tied maxima the earliest configuration is reported. When some recorded score is
  NaN, the last cell reports the configuration of the first NaN, with the score NaN. For
  three configurations 1, 2, 3 (the sweep of a single parameter x) with equal scores it
  reports 1.
\<close>

theorem selection_stable_argmax:
  "(rs \<noteq> [] \<and> length psets = length rs \<longrightarrow>
      (\<exists>b<length rs.
         (selection psets (map Fl rs) sd :: 'e error + 'c result) =
           Inr \<lparr>best_score = Fl (rs ! b), score_with_defaults = sd, best_parameters = psets ! b\<rparr>
         \<and> rs ! b = Max (set rs) \<and> (\<forall>j<b. rs ! j < rs ! b)))
   \<and> (NaN \<in> set scs \<and> length psets = length scs \<longrightarrow>
      (\<exists>b<length scs.
         (selection psets scs sd :: 'e error + 'c result) =
           Inr \<lparr>best_score = NaN, score_with_defaults = sd, best_parameters = psets ! b\<rparr>
         \<and> scs ! b = NaN \<and> (\<forall>j<b. scs ! j \<noteq> NaN)))
   \<and> (selection [1, 2, 3 :: int] [s, s, s] sd :: 'e error + int result) =
       Inr \<lparr>best_score = s, score_with_defaults = sd, best_parameters = 1\<rparr>"
proof (intro conjI impI)
  assume h: "rs \<noteq> [] \<and> length psets = length rs"
  then obtain b where b: "(np_argmax (map Fl rs) :: 'e error + nat) = Inr b" "b < length rs"
      "rs ! b = Max (set rs)" "\<forall>j<b. rs ! j < rs ! b"
    using np_argmax_numbers [of rs] by blast
  from h b(2) selection_of_argmax [OF b(1), of psets sd]
  have "(selection psets (map Fl rs) sd :: 'e error + 'c result) =
      Inr \<lparr>best_score = Fl (rs ! b), score_with_defaults = sd, best_parameters = psets ! b\<rparr>"
    by simp
  with b show "\<exists>b<length rs.
         (selection psets (map Fl rs) sd :: 'e error + 'c result) =
           Inr \<lparr>best_score = Fl (rs ! b), score_with_defaults = sd, best_parameters = psets ! b\<rparr>
         \<and> rs ! b = Max (set rs) \<and> (\<forall>j<b. rs ! j < rs ! b)"
    by blast
next
  assume h: "NaN \<in> set scs \<and> length psets = length scs"
  then obtain b where b: "(np_argmax scs :: 'e error + nat) = Inr b" "b < length scs"
      "scs ! b = NaN" "\<forall>j<b. scs ! j \<noteq> NaN"
    using np_argmax_nan [of scs] by blast
  from h b(3) selection_of_argmax [OF b(1,2), of psets sd]
  have "(selection psets scs sd :: 'e error + 'c result) =
      Inr \<lparr>best_score = NaN, score_with_defaults = sd, best_parameters = psets ! b\<rparr>"
    by simp
  with b show "\<exists>b<length scs.
         (selection psets scs sd :: 'e error + 'c result) =
           Inr \<lparr>best_score = NaN, score_with_defaults = sd, best_parameters = psets ! b\<rparr>
         \<and> scs ! b = NaN \<and> (\<forall>j<b. scs ! j \<noteq> NaN)"
    by blast
next
  show "(selection [1, 2, 3 :: int] [s, s, s] sd :: 'e error + int result) =
       Inr \<lparr>best_score = s, score_with_defaults = sd, best_parameters = 1\<rparr>"
    by (cases s) (simp_all add: selection_def np_argmax_def py_index_def)
qed

theorem selection_stable_argmax_witness:
  "selection [''a'', ''b'', ''c'', ''d''] (map Fl [-3, 21 / 25, 17 / 20, 17 / 20]) (Fl (4 / 5))
     = (Inr \<lparr>best_score = Fl (17 / 20), score_with_defaults = Fl (4 / 5),
             best_parameters = ''c''\<rparr> :: unit error + string result)
   \<and> selection [''a'', ''b'', ''c'', ''d''] [Fl 1, Fl 2, NaN, NaN] (Fl (4 / 5))
     = (Inr \<lparr>best_score = NaN, score_with_defaults = Fl (4 / 5),
             best_parameters = ''c''\<rparr> :: unit error + string result)"
proof -
  note t = selection_stable_argmax [where 'e = unit and rs = "[-3, 21 / 25, 17 / 20, 17 / 20]"
      and scs = "[Fl 1, Fl 2, NaN, NaN]" and psets = "[''a'', ''b'', ''c'', ''d'']"
      and sd = "Fl (4 / 5)" and s = NaN]
  have "\<exists>b<length [-3, 21 / 25, 17 / 20, 17 / 20 :: real].
         (selection [''a'', ''b'', ''c'', ''d''] (map Fl [-3, 21 / 25, 17 / 20, 17 / 20])
            (Fl (4 / 5)) :: unit error + string result) =
           Inr \<lparr>best_score = Fl ([-3, 21 / 25, 17 / 20, 17 / 20] ! b),
                score_with_defaults = Fl (4 / 5),
                best_parameters = [''a'', ''b'', ''c'', ''d''] ! b\<rparr>
         \<and> [-3, 21 / 25, 17 / 20, 17 / 20] ! b = Max (set [-3, 21 / 25, 17 / 20, 17 / 20 :: real])
         \<and> (\<forall>j<b. [-3, 21 / 25, 17 / 20, 17 / 20 :: real] ! j < [-3, 21 / 25, 17 / 20, 17 / 20] ! b)"
    using t by simp
  moreover have "\<exists>b<length [Fl 1, Fl 2, NaN, NaN].
         (selection [''a'', ''b'', ''c'', ''d''] [Fl 1, Fl 2, NaN, NaN] (Fl (4 / 5))
            :: unit error + string result) =
           Inr \<lparr>best_score = NaN, score_with_defaults = Fl (4 / 5),
                best_parameters = [''a'', ''b'', ''c'', ''d''] ! b\<rparr>
         \<and> [Fl 1, Fl 2, NaN, NaN] ! b = NaN \<and> (\<forall>j<b. [Fl 1, Fl 2, NaN, NaN] ! j \<noteq> NaN)"
    using t by simp
  ultimately show ?thesis
    by (simp add: selection_def np_argmax_def py_index_def)
qed

text \<open>
  The claim C1 fails as stated: with the recorded scores 0.5, NaN, 0.9 the last cell
  reports the second configuration with the score NaN, not the third, whose score 0.9 is
  the largest; NaN is not at least 0.9.
\<close>

theorem selection_nan_counterexample:
  "(selection [''a'', ''b'', ''c''] [Fl (1 / 2), NaN, Fl (9 / 10)] (Fl (4 / 5))
      :: unit error + string result)
     = Inr \<lparr>best_score = NaN, score_with_defaults = Fl (4 / 5), best_parameters = ''b''\<rparr>
   \<and> \<not> fl_le (Fl (9 / 10)) NaN"
  by (simp add: selection_def np_argmax_def py_index_def)

section \<open>The evaluation loop\<close>

text \<open>
  \<^verbatim>\<open>set_params\<close> overwrites both parameters, so the configured object does not
  depend on what the object held before.
\<close>

lemma set_params_indep: "set_params s p = \<lparr>obj_damping = damping p, obj_mindist = mindist p\<rparr>"
  by (simp add: set_params_def)

lemma sweep_ok:
  assumes "\<forall>p\<in>set ps. \<exists>v. f (set_params s0 p) = Inr v"
  shows "sweep f ps st =
    (Inr (), st\<lparr>spline := (if ps = [] then spline st else set_params s0 (last ps)),
                 scores := scores st @ map (\<lambda>p. projr (f (set_params s0 p))) ps,
                 cv_calls := cv_calls st @ map (set_params s0) ps\<rparr>)"
  using assms
proof (induction ps arbitrary: st)
  case Nil
  then show ?case by simp
next
  case (Cons p ps)
  from Cons.prems obtain v where v: "f (set_params s0 p) = Inr v" by auto
  from Cons.prems have rest: "\<forall>q\<in>set ps. \<exists>v. f (set_params s0 q) = Inr v" by simp
  have same: "set_params (spline st) p = set_params s0 p"
    by (simp add: set_params_indep)
  show ?case
    by (simp add: Let_def same v Cons.IH [OF rest])
qed

lemma sweep_fail:
  assumes "\<forall>q\<in>set pre. \<exists>v. f (set_params s0 q) = Inr v" and "f (set_params s0 p) = Inl e"
  shows "sweep f (pre @ p # post) st =
    (Inl (Raised e), st\<lparr>spline := set_params s0 p,
                 scores := scores st @ map (\<lambda>q. projr (f (set_params s0 q))) pre,
                 cv_calls := cv_calls st @ map (set_params s0) (pre @ [p])\<rparr>)"
  using assms(1)
proof (induction pre arbitrary: st)
  case Nil
  have same: "set_params (spline st) p = set_params s0 p"
    by (simp add: set_params_indep)
  show ?case by (simp add: Let_def same assms(2))
next
  case (Cons q pre)
  from Cons.prems obtain v where v: "f (set_params s0 q) = Inr v" by auto
  from Cons.prems have rest: "\<forall>q\<in>set pre. \<exists>v. f (set_params s0 q) = Inr v" by simp
  have same: "set_params (spline st) q = set_params s0 q"
    by (simp add: set_params_indep)
  show ?case
    by (simp add: Let_def same v Cons.IH [OF rest])
qed

lemma first_failure:
  assumes "\<not> (\<forall>p\<in>set ps. \<exists>v. f (set_params s0 p) = Inr v)"
  shows "\<exists>pre p post e. ps = pre @ p # post \<and> f (set_params s0 p) = Inl e
           \<and> (\<forall>q\<in>set pre. \<exists>v. f (set_params s0 q) = Inr v)"
proof -
  from assms have "\<exists>p\<in>set ps. \<exists>e. f (set_params s0 p) = Inl e"
    by (metis sum.exhaust)
  then obtain pre p post where s: "ps = pre @ p # post" "\<exists>e. f (set_params s0 p) = Inl e"
      "\<forall>q\<in>set pre. \<not> (\<exists>e. f (set_params s0 q) = Inl e)"
    using split_list_first_prop [of ps "\<lambda>p. \<exists>e. f (set_params s0 p) = Inl e"] by blast
  from s(3) have "\<forall>q\<in>set pre. \<exists>v. f (set_params s0 q) = Inr v"
    by (metis sum.exhaust)
  with s(1,2) show ?thesis by blast
qed

lemma sweep_completes:
  assumes "fst (sweep f ps st) = Inr u"
  shows "\<forall>p\<in>set ps. \<exists>v. f (set_params s0 p) = Inr v"
proof (rule ccontr)
  assume "\<not> ?thesis"
  then obtain pre p post e where "ps = pre @ p # post" "f (set_params s0 p) = Inl e"
      "\<forall>q\<in>set pre. \<exists>v. f (set_params s0 q) = Inr v"
    using first_failure [of ps f s0] by blast
  then have "fst (sweep f ps st) = Inl (Raised e)"
    using sweep_fail [of pre f s0 p e post st] by simp
  with assms show False by simp
qed

lemma loop_cell_completes:
  assumes "loop_cell lib ps calls = (Inr u, st)"
  shows "(\<forall>p\<in>set ps. \<exists>v. cv_score lib (set_params (vd_Spline lib) p) = Inr v)
    \<and> st = \<lparr>spline = (if ps = [] then vd_Spline lib else set_params (vd_Spline lib) (last ps)),
            scores = map (\<lambda>p. projr (cv_score lib (set_params (vd_Spline lib) p))) ps,
            cv_calls = calls @ map (set_params (vd_Spline lib)) ps\<rparr>"
proof -
  let ?st0 = "\<lparr>spline = vd_Spline lib, scores = [], cv_calls = calls\<rparr>"
  from assms have "fst (sweep (cv_score lib) ps ?st0) = Inr u"
    by (simp add: loop_cell_def)
  then have ok: "\<forall>p\<in>set ps. \<exists>v. cv_score lib (set_params (vd_Spline lib) p) = Inr v"
    by (rule sweep_completes)
  from sweep_ok [OF ok, of ?st0] assms show ?thesis
    using ok by (auto simp: loop_cell_def)
qed





lemma sweep_scores_only:
  assumes "scores st1 = scores st2"
  shows "fst (sweep f ps st1) = fst (sweep f ps st2)
    \<and> scores (snd (sweep f ps st1)) = scores (snd (sweep f ps st2))"
  using assms
proof (induction ps arbitrary: st1 st2)
  case Nil
  then show ?case by simp
next
  case (Cons p ps)
  have same: "set_params (spline st1) p = set_params (spline st2) p"
    by (simp add: set_params_indep)
  show ?case
  proof (cases "f (set_params (spline st2) p)")
    case (Inl e)
    with Cons.prems same show ?thesis by (simp add: Let_def)
  next
    case (Inr v)
    let ?n1 = "st1\<lparr>spline := set_params (spline st2) p,
                    cv_calls := cv_calls st1 @ [set_params (spline st2) p],
                    scores := scores st1 @ [v]\<rparr>"
    let ?n2 = "st2\<lparr>spline := set_params (spline st2) p,
                    cv_calls := cv_calls st2 @ [set_params (spline st2) p],
                    scores := scores st2 @ [v]\<rparr>"
    have "scores ?n1 = scores ?n2" using Cons.prems by simp
    from Cons.IH [OF this] Inr same show ?thesis by (simp add: Let_def)
  qed
qed

text \<open>
  C7. Two runs of the loop with the same configurations and the same scoring function
  end the same way and record the same scores, hence the same score records, whatever
  parameters the model object was constructed with and whatever was scored before.
\<close>

theorem sweep_deterministic:
  assumes "cv_score lib1 = cv_score lib2"
  shows "fst (loop_cell lib1 ps calls1) = fst (loop_cell lib2 ps calls2)
    \<and> scores (snd (loop_cell lib1 ps calls1)) = scores (snd (loop_cell lib2 ps calls2))
    \<and> score_records ps (snd (loop_cell lib1 ps calls1))
        = score_records ps (snd (loop_cell lib2 ps calls2))"
proof -
  let ?a = "\<lparr>spline = vd_Spline lib1, scores = [], cv_calls = calls1\<rparr>"
  let ?b = "\<lparr>spline = vd_Spline lib2, scores = [], cv_calls = calls2\<rparr>"
  have "scores ?a = scores ?b" by simp
  from sweep_scores_only [OF this, of "cv_score lib2" ps] assms
  show ?thesis by (simp add: loop_cell_def score_records_def)
qed

theorem sweep_deterministic_witness:
  "scores (snd (loop_cell (stub_lib [(c00, Inr (Fl 1)), (c01, Inl ''singular'')]) [c00, c01, c10] []))
     = [Fl 1]
   \<and> scores (snd (loop_cell
        ((stub_lib [(c00, Inr (Fl 1)), (c01, Inl ''singular'')])
           \<lparr>vd_Spline := \<lparr>obj_damping = PyFloat 7, obj_mindist = PyNone\<rparr>\<rparr>)
        [c00, c01, c10] [default_spline]))
     = [Fl 1]"
proof -
  let ?l1 = "stub_lib [(c00, Inr (Fl 1)), (c01, Inl ''singular'')]"
  let ?l2 = "?l1\<lparr>vd_Spline := \<lparr>obj_damping = PyFloat 7, obj_mindist = PyNone\<rparr>\<rparr>"
  have same: "cv_score ?l1 = cv_score ?l2" by simp
  have one: "scores (snd (loop_cell ?l1 [c00, c01, c10] [])) = [Fl 1]"
    by (simp add: loop_cell_def stub_lib_def Let_def set_params_def
        c00_def c01_def c10_def default_spline_def)
  from sweep_deterministic [OF same, of "[c00, c01, c10]" "[]" "[default_spline]"] one
  show ?thesis by simp
qed

section \<open>The whole run\<close>

lemma np_argmax_Nil: "(np_argmax [] :: 'e error + nat) = Inl ValueError"
  by (simp add: np_argmax_def)

lemma selection_Nil: "(selection psets [] sd :: 'e error + 'c result) = Inl ValueError"
  by (simp add: selection_def np_argmax_def)

lemma notebook_Inr:
  assumes "notebook (lib :: 'e lib) ds ms = (Inr r, calls, sto)"
  shows "\<exists>sd st. cv_score lib (vd_Spline lib) = Inr sd
    \<and> loop_cell lib (parameter_sets ds ms) [vd_Spline lib] = (Inr (), st)
    \<and> sto = Some st \<and> calls = cv_calls st
    \<and> (selection (parameter_sets ds ms) (scores st) sd :: 'e error + config result) = Inr r"
  using assms
  by (auto simp: notebook_def Let_def split: sum.splits prod.splits)

lemma loop_then_selection:
  assumes "loop_cell lib ps calls = (Inr u, st)" and "ps \<noteq> []"
  shows "length (scores st) = length ps
    \<and> (\<exists>b<length ps.
          (np_argmax (scores st) :: 'e error + nat) = Inr b
          \<and> (NaN \<in> set (scores st) \<longleftrightarrow> scores st ! b = NaN)
          \<and> (scores st ! b = NaN \<or> (\<forall>x\<in>set (scores st). fl_le x (scores st ! b)))
          \<and> (selection ps (scores st) sd :: 'e error + config result) =
              Inr \<lparr>best_score = scores st ! b, score_with_defaults = sd,
                   best_parameters = ps ! b\<rparr>)"
proof -
  from loop_cell_completes [OF assms(1)] have len: "length (scores st) = length ps" by simp
  with assms(2) have ne: "scores st \<noteq> []" by auto
  from np_argmax_max [OF ne, where 'e = 'e]
  obtain b where b: "(np_argmax (scores st) :: 'e error + nat) = Inr b" "b < length (scores st)"
      "NaN \<in> set (scores st) \<longleftrightarrow> scores st ! b = NaN"
      "scores st ! b = NaN \<or> (\<forall>x\<in>set (scores st). fl_le x (scores st ! b))"
    by blast
  from selection_of_argmax [OF b(1) b(2), of ps sd] len
  have "(selection ps (scores st) sd :: 'e error + config result) =
      Inr \<lparr>best_score = scores st ! b, score_with_defaults = sd, best_parameters = ps ! b\<rparr>"
    by simp
  with b len show ?thesis by auto
qed

lemma parameter_sets_empty: "parameter_sets ds ms = [] \<longleftrightarrow> ds = [] \<or> ms = []"
  using length_parameter_sets [of ds ms] by (metis length_0_conv mult_is_0)

text \<open>
  C10. When both lists are non-empty and the loop completes, the list of scores is as
  long as the list of configurations; \<^verbatim>\<open>np.argmax\<close> then returns an index below
  that length, both \<^verbatim>\<open>scores[best]\<close> and \<^verbatim>\<open>parameter_sets[best]\<close> are in range,
  and the last cell ends without an exception.
\<close>

theorem best_index_in_bounds:
  assumes "ds \<noteq> []" and "ms \<noteq> []"
    and "loop_cell lib (parameter_sets ds ms) calls = (Inr u, st)"
  shows "length (scores st) = length (parameter_sets ds ms)
    \<and> (\<exists>b. (np_argmax (scores st) :: 'e error + nat) = Inr b
          \<and> b < length (parameter_sets ds ms)
          \<and> (py_index (scores st) b :: 'e error + npfloat) = Inr (scores st ! b)
          \<and> (py_index (parameter_sets ds ms) b :: 'e error + config)
               = Inr (parameter_sets ds ms ! b)
          \<and> (selection (parameter_sets ds ms) (scores st) sd :: 'e error + config result) =
              Inr \<lparr>best_score = scores st ! b, score_with_defaults = sd,
                   best_parameters = parameter_sets ds ms ! b\<rparr>)"
proof -
  from assms(1,2) have ne: "parameter_sets ds ms \<noteq> []"
    by (simp add: parameter_sets_empty)
  from loop_then_selection [OF assms(3) ne, of sd] obtain b where
    len: "length (scores st) = length (parameter_sets ds ms)"
    and b: "b < length (parameter_sets ds ms)"
    and am: "(np_argmax (scores st) :: 'e error + nat) = Inr b"
    and sel: "(selection (parameter_sets ds ms) (scores st) sd :: 'e error + config result) =
        Inr \<lparr>best_score = scores st ! b, score_with_defaults = sd,
             best_parameters = parameter_sets ds ms ! b\<rparr>"
    by blast
  have "(py_index (scores st) b :: 'e error + npfloat) = Inr (scores st ! b)"
    using b len by (simp add: py_index_def)
  moreover have "(py_index (parameter_sets ds ms) b :: 'e error + config)
      = Inr (parameter_sets ds ms ! b)"
    using b by (simp add: py_index_def)
  ultimately show ?thesis using len b am sel by blast
qed

theorem best_index_in_bounds_witness:
  "selection (parameter_sets [PyNone, PyFloat (1 / 100)] [PyFloat 5000, PyFloat 50000])
     (scores (snd (loop_cell (stub_lib [(c00, Inr (Fl (-3))), (c01, Inr (Fl (17 / 20)))])
        (parameter_sets [PyNone, PyFloat (1 / 100)] [PyFloat 5000, PyFloat 50000]) []))) (Fl (4 / 5))
   = (Inr \<lparr>best_score = Fl (17 / 20), score_with_defaults = Fl (4 / 5), best_parameters = c01\<rparr>
       :: string error + config result)"
proof -
  let ?lib = "stub_lib [(c00, Inr (Fl (-3))), (c01, Inr (Fl (17 / 20)))]"
  let ?ps = "parameter_sets [PyNone, PyFloat (1 / 100)] [PyFloat 5000, PyFloat 50000]"
  let ?st = "\<lparr>spline = \<lparr>obj_damping = PyFloat (1 / 100), obj_mindist = PyFloat 50000\<rparr>,
             scores = [Fl (-3), Fl (17 / 20), Fl (4 / 5), Fl (4 / 5)],
             cv_calls = [\<lparr>obj_damping = PyNone, obj_mindist = PyFloat 5000\<rparr>,
                         \<lparr>obj_damping = PyNone, obj_mindist = PyFloat 50000\<rparr>,
                         \<lparr>obj_damping = PyFloat (1 / 100), obj_mindist = PyFloat 5000\<rparr>,
                         \<lparr>obj_damping = PyFloat (1 / 100), obj_mindist = PyFloat 50000\<rparr>]\<rparr>"
  have run: "loop_cell ?lib ?ps [] = (Inr (), ?st)"
    by (simp add: loop_cell_def stub_lib_def Let_def set_params_def parameter_sets_nested
        c00_def c01_def default_spline_def)
  have "[PyNone, PyFloat (1 / 100)] \<noteq> []" and "[PyFloat 5000, PyFloat 50000] \<noteq> []"
    by simp_all
  from best_index_in_bounds [OF this run, of "Fl (4 / 5)"]
  obtain b where "(np_argmax (scores ?st) :: string error + nat) = Inr b"
    and "(selection ?ps (scores ?st) (Fl (4 / 5)) :: string error + config result) =
      Inr \<lparr>best_score = scores ?st ! b, score_with_defaults = Fl (4 / 5), best_parameters = ?ps ! b\<rparr>"
    by blast
  moreover have "(np_argmax (scores ?st) :: string error + nat) = Inr 1"
    by (simp add: np_argmax_def)
  moreover have "scores (snd (loop_cell ?lib ?ps [])) = scores ?st"
    by (simp only: run snd_conv)
  ultimately show ?thesis
    by (simp only:) (simp add: parameter_sets_nested c01_def)
qed

text \<open>
  C9. After a run that reaches its report, the shared object \<^verbatim>\<open>spline\<close> holds the
  last configuration of \<^verbatim>\<open>parameter_sets\<close>, set by the last iteration of the loop,
  whichever configuration is reported as best. The state after the last cell is the state
  the loop left, and the scoring calls of the run are the baseline call and one call per
  configuration: selection neither reconfigures nor rescores the object.
\<close>

theorem model_holds_last_configuration:
  assumes "notebook lib ds ms = (Inr r, calls, sto)"
  shows "\<exists>st. sto = Some st
    \<and> loop_cell lib (parameter_sets ds ms) [vd_Spline lib] = (Inr (), st)
    \<and> parameter_sets ds ms \<noteq> []
    \<and> spline st = set_params (vd_Spline lib) (last (parameter_sets ds ms))
    \<and> calls = vd_Spline lib # map (set_params (vd_Spline lib)) (parameter_sets ds ms)"
proof -
  from notebook_Inr [OF assms] obtain sd st where
    run: "loop_cell lib (parameter_sets ds ms) [vd_Spline lib] = (Inr (), st)"
    and sto: "sto = Some st" and calls: "calls = cv_calls st"
    and sel: "(selection (parameter_sets ds ms) (scores st) sd :: 'a error + config result) = Inr r"
    by blast
  note c = loop_cell_completes [OF run]
  have ne: "parameter_sets ds ms \<noteq> []"
  proof
    assume "parameter_sets ds ms = []"
    with c have "scores st = []" by simp
    with sel show False by (simp add: selection_Nil)
  qed
  from c ne have "spline st = set_params (vd_Spline lib) (last (parameter_sets ds ms))"
    by simp
  moreover from c calls
  have "calls = vd_Spline lib # map (set_params (vd_Spline lib)) (parameter_sets ds ms)"
    by simp
  ultimately show ?thesis using run sto ne by blast
qed

theorem model_holds_last_configuration_witness:
  "notebook (stub_lib [(c00, Inr (Fl (-3))), (c01, Inr (Fl (17 / 20)))])
     [PyNone, PyFloat (1 / 100)] [PyFloat 5000, PyFloat 50000]
   = (Inr \<lparr>best_score = Fl (17 / 20), score_with_defaults = Fl (4 / 5), best_parameters = c01\<rparr>,
      [default_spline,
       \<lparr>obj_damping = PyNone, obj_mindist = PyFloat 5000\<rparr>,
       \<lparr>obj_damping = PyNone, obj_mindist = PyFloat 50000\<rparr>,
       \<lparr>obj_damping = PyFloat (1 / 100), obj_mindist = PyFloat 5000\<rparr>,
       \<lparr>obj_damping = PyFloat (1 / 100), obj_mindist = PyFloat 50000\<rparr>],
      Some \<lparr>spline = \<lparr>obj_damping = PyFloat (1 / 100), obj_mindist = PyFloat 50000\<rparr>,
            scores = [Fl (-3), Fl (17 / 20), Fl (4 / 5), Fl (4 / 5)],
            cv_calls = [default_spline,
              \<lparr>obj_damping = PyNone, obj_mindist = PyFloat 5000\<rparr>,
              \<lparr>obj_damping = PyNone, obj_mindist = PyFloat 50000\<rparr>,
              \<lparr>obj_damping = PyFloat (1 / 100), obj_mindist = PyFloat 5000\<rparr>,
              \<lparr>obj_damping = PyFloat (1 / 100), obj_mindist = PyFloat 50000\<rparr>]\<rparr>)
   \<and> set_params default_spline c11 \<noteq> set_params default_spline c01"
proof -
  let ?lib = "stub_lib [(c00, Inr (Fl (-3))), (c01, Inr (Fl (17 / 20)))]"
  let ?st = "\<lparr>spline = \<lparr>obj_damping = PyFloat (1 / 100), obj_mindist = PyFloat 50000\<rparr>,
            scores = [Fl (-3), Fl (17 / 20), Fl (4 / 5), Fl (4 / 5)],
            cv_calls = [default_spline,
              \<lparr>obj_damping = PyNone, obj_mindist = PyFloat 5000\<rparr>,
              \<lparr>obj_damping = PyNone, obj_mindist = PyFloat 50000\<rparr>,
              \<lparr>obj_damping = PyFloat (1 / 100), obj_mindist = PyFloat 5000\<rparr>,
              \<lparr>obj_damping = PyFloat (1 / 100), obj_mindist = PyFloat 50000\<rparr>]\<rparr>"
  have run: "notebook ?lib [PyNone, PyFloat (1 / 100)] [PyFloat 5000, PyFloat 50000]
      = (Inr \<lparr>best_score = Fl (17 / 20), score_with_defaults = Fl (4 / 5), best_parameters = c01\<rparr>,
         cv_calls ?st, Some ?st)"
    by (simp add: notebook_def loop_cell_def stub_lib_def Let_def set_params_def
        parameter_sets_nested selection_def np_argmax_def py_index_def
        c00_def c01_def default_spline_def)
  from model_holds_last_configuration [OF run]
  have "spline ?st = set_params (vd_Spline ?lib)
      (last (parameter_sets [PyNone, PyFloat (1 / 100)] [PyFloat 5000, PyFloat 50000]))"
    by simp
  then have "spline ?st = set_params default_spline c11"
    by (simp add: parameter_sets_nested stub_lib_def c11_def)
  moreover have "set_params default_spline c11 \<noteq> set_params default_spline c01"
    by (simp add: set_params_indep c11_def c01_def)
  ultimately show ?thesis using run by simp
qed




section \<open>Runs that end with an exception\<close>

text \<open>
  A run with an empty list of candidate values. The notebook always has the two
  parameters damping and mindist and checks nothing before the sweep. When one of the
  two lists is empty there is no configuration: the loop makes no scoring call (the
  baseline was scored before it, one call), and the run ends in the last cell with the
  \<^verbatim>\<open>ValueError\<close> that \<^verbatim>\<open>np.argmax\<close> raises on an empty sequence.
\<close>

lemma no_configurations:
  assumes "ds = [] \<or> ms = []" and "cv_score lib (vd_Spline lib) = Inr sd"
  shows "notebook lib ds ms =
    (Inl ValueError, [vd_Spline lib],
     Some \<lparr>spline = vd_Spline lib, scores = [], cv_calls = [vd_Spline lib]\<rparr>)"
proof -
  from assms(1) have "parameter_sets ds ms = []"
    by (simp add: parameter_sets_empty)
  with assms(2) show ?thesis
    by (simp add: notebook_def loop_cell_def selection_Nil Let_def)
qed

lemma no_configurations_run:
  "notebook (stub_lib []) [] [PyFloat 5000] =
     (Inl ValueError, [default_spline],
      Some \<lparr>spline = default_spline, scores = [], cv_calls = [default_spline]\<rparr>)"
  using no_configurations [of "[]" "[PyFloat 5000]" "stub_lib []" "Fl (4 / 5)"]
  by (simp add: stub_lib_def)

text \<open>
  C5, as the code has it. When the scoring expression raises for a configuration after
  succeeding for the baseline and for every earlier configuration, the run ends with
  that very exception, unchanged: no cell catches or wraps it, and nothing is attached
  to it. The configurations after the offending one are not scored, no report is
  produced, and the model object is left holding the offending configuration.
\<close>

theorem scoring_failure_propagates:
  assumes "cv_score lib (vd_Spline lib) = Inr sd"
    and "parameter_sets ds ms = pre @ p # post"
    and "\<forall>q\<in>set pre. \<exists>v. cv_score lib (set_params (vd_Spline lib) q) = Inr v"
    and "cv_score lib (set_params (vd_Spline lib) p) = Inl e"
  shows "notebook lib ds ms =
    (Inl (Raised e),
     vd_Spline lib # map (set_params (vd_Spline lib)) (pre @ [p]),
     Some \<lparr>spline = set_params (vd_Spline lib) p,
           scores = map (\<lambda>q. projr (cv_score lib (set_params (vd_Spline lib) q))) pre,
           cv_calls = vd_Spline lib # map (set_params (vd_Spline lib)) (pre @ [p])\<rparr>)"
proof -
  let ?st0 = "\<lparr>spline = vd_Spline lib, scores = [], cv_calls = [vd_Spline lib]\<rparr>"
  from sweep_fail [OF assms(3,4), of post ?st0]
  have "loop_cell lib (parameter_sets ds ms) [vd_Spline lib] =
    (Inl (Raised e),
     \<lparr>spline = set_params (vd_Spline lib) p,
      scores = map (\<lambda>q. projr (cv_score lib (set_params (vd_Spline lib) q))) pre,
      cv_calls = vd_Spline lib # map (set_params (vd_Spline lib)) (pre @ [p])\<rparr>)"
    by (simp add: loop_cell_def assms(2))
  with assms(1) show ?thesis
    by (simp add: notebook_def Let_def)
qed

theorem scoring_failure_propagates_witness:
  "notebook (stub_lib [(c00, Inr (Fl (-3))), (c10, Inl ''singular matrix'')])
     [PyNone, PyFloat (1 / 100)] [PyFloat 5000, PyFloat 50000]
   = (Inl (Raised ''singular matrix''),
      [default_spline, set_params default_spline c00, set_params default_spline c01,
       set_params default_spline c10],
      Some \<lparr>spline = set_params default_spline c10,
            scores = [Fl (-3), Fl (4 / 5)],
            cv_calls = [default_spline, set_params default_spline c00,
              set_params default_spline c01, set_params default_spline c10]\<rparr>)"
proof -
  let ?lib = "stub_lib [(c00, Inr (Fl (-3))), (c10, Inl ''singular matrix'')]"
  have d: "vd_Spline ?lib = default_spline" by (simp add: stub_lib_def)
  have 1: "cv_score ?lib (vd_Spline ?lib) = Inr (Fl (4 / 5))"
    by (simp add: stub_lib_def default_spline_def c00_def c10_def)
  have 2: "parameter_sets [PyNone, PyFloat (1 / 100)] [PyFloat 5000, PyFloat 50000]
      = [c00, c01] @ c10 # [c11]"
    by (simp add: parameter_sets_nested c00_def c01_def c10_def c11_def)
  have s0: "cv_score ?lib (set_params (vd_Spline ?lib) c00) = Inr (Fl (-3))"
    by (simp add: stub_lib_def set_params_indep c00_def c10_def)
  have s1: "cv_score ?lib (set_params (vd_Spline ?lib) c01) = Inr (Fl (4 / 5))"
    by (simp add: stub_lib_def set_params_indep c00_def c01_def c10_def)
  have 3: "\<forall>q\<in>set [c00, c01]. \<exists>v. cv_score ?lib (set_params (vd_Spline ?lib) q) = Inr v"
  proof -
    have "\<exists>v. cv_score ?lib (set_params (vd_Spline ?lib) c00) = Inr v"
      and "\<exists>v. cv_score ?lib (set_params (vd_Spline ?lib) c01) = Inr v"
      using s0 s1 by blast+
    then show ?thesis by simp
  qed
  have 4: "cv_score ?lib (set_params (vd_Spline ?lib) c10) = Inl ''singular matrix''"
    by (simp add: stub_lib_def set_params_indep c00_def c10_def)
  from scoring_failure_propagates [OF 1 2 3 4] show ?thesis
    by (simp only: d s0 [unfolded d] s1 [unfolded d] list.map append.simps sum.sel)
qed

text \<open>
  The claim C5 fails as stated: the exception that ends the run is the one the scoring
  expression raised, and it names no configuration. Two sweeps whose scoring fails with
  the same exception, one at the third configuration and one at the second, end with the
  same error value.
\<close>

theorem evaluation_failure_counterexample:
  "fst (notebook (stub_lib [(c10, Inl ''singular matrix'')])
          [PyNone, PyFloat (1 / 100)] [PyFloat 5000, PyFloat 50000])
     = Inl (Raised ''singular matrix'')
   \<and> fst (notebook (stub_lib [(c01, Inl ''singular matrix'')])
          [PyNone, PyFloat (1 / 100)] [PyFloat 5000, PyFloat 50000])
     = Inl (Raised ''singular matrix'')
   \<and> spline (the (snd (snd (notebook (stub_lib [(c10, Inl ''singular matrix'')])
          [PyNone, PyFloat (1 / 100)] [PyFloat 5000, PyFloat 50000]))))
     = set_params default_spline c10
   \<and> spline (the (snd (snd (notebook (stub_lib [(c01, Inl ''singular matrix'')])
          [PyNone, PyFloat (1 / 100)] [PyFloat 5000, PyFloat 50000]))))
     = set_params default_spline c01"
  by (simp add: notebook_def loop_cell_def stub_lib_def Let_def set_params_def
      parameter_sets_nested c01_def c10_def default_spline_def)

section \<open>The output stored in the notebook\<close>

text \<open>
  The notebook stores the output of its last execution: 16 combinations, the list of
  scores, and the best parameters \<^verbatim>\<open>{'damping': 0.001, 'mindist': 50000.0}\<close> with
  the best score 0.852794541088171. The model gives the same report from the stored
  scores (read as exact decimals).
\<close>

lemma stored_output:
  "(selection (parameter_sets dampings mindists)
     (map Fl
       [-30558088625105246 / 10 ^ 16, -10324987610313634 / 10 ^ 16,
        8388935474419433 / 10 ^ 16, 8372297486556756 / 10 ^ 16,
        8357332950163141 / 10 ^ 16, 8302176127333297 / 10 ^ 16,
        8503658696313814 / 10 ^ 16, 842379393827142 / 10 ^ 15,
        8371791440825426 / 10 ^ 16, 8403780767301334 / 10 ^ 16,
        852794541088171 / 10 ^ 15, 8524545032000166 / 10 ^ 16,
        8403005442318481 / 10 ^ 16, 8344566205401425 / 10 ^ 16,
        843101054678694 / 10 ^ 15, 8486770494068516 / 10 ^ 16])
     (Fl (7960375866932156 / 10 ^ 16)) :: unit error + config result)
   = Inr \<lparr>best_score = Fl (852794541088171 / 10 ^ 15),
          score_with_defaults = Fl (7960375866932156 / 10 ^ 16),
          best_parameters = \<lparr>damping = PyFloat (1 / 1000), mindist = PyFloat 50000\<rparr>\<rparr>"
  by (simp add: selection_def np_argmax_def py_index_def parameter_sets_nested
      dampings_def mindists_def)

end
